theory Spec2Isabelle
  imports Complex_Main
begin

section \<open>Per-square contributions of a chess evaluation network (\<^verbatim>\<open>show_matrix.py\<close>)\<close>

text \<open>
  The script loads a trained network, evaluates one position, and prints the per-square
  contributions, the top and bottom contributors and, on request, the change of the global
  evaluation when one piece is removed.

  Modelling decisions.
  \<^item> Python floats are exact reals: rounding, overflow, infinities and NaN are not
    represented. Where \<^verbatim>\<open>float(v)\<close> would return an infinity or a NaN, the model stops
    with the marker \<open>NonFiniteFloat\<close>, which is not a Python exception.
  \<^item> Strings are ASCII: \<^verbatim>\<open>strip\<close>, \<^verbatim>\<open>upper\<close> and \<^verbatim>\<open>float\<close> are modelled on the ASCII range,
    other characters are left alone.
  \<^item> The network and \<^verbatim>\<open>board_to_features\<close> are imported from modules outside this file:
    their results are parameters (\<open>evaluate\<close>, \<open>sqs\<close>, \<open>feats\<close>).
  \<^item> \<^verbatim>\<open>chess\<close> is the python-chess library: squares are numbered 0 to 63 from a1
    (\<^verbatim>\<open>chess.A1 = 0\<close>, \<^verbatim>\<open>chess.H8 = 63\<close>), \<^verbatim>\<open>square_name\<close>, \<^verbatim>\<open>Piece.symbol\<close>,
    \<^verbatim>\<open>Board.copy\<close> and \<^verbatim>\<open>Board.remove_piece_at\<close> follow the library.
  \<^item> The float format specifications (\<^verbatim>\<open>6.3f\<close>, \<^verbatim>\<open>+.3f\<close>, ...) are parameters of type
    \<open>real \<Rightarrow> string\<close>.
\<close>

subsection \<open>Python values: errors, strings\<close>

datatype py_error = ValueError | ZeroDivisionError | IndexError | NonFiniteFloat

text \<open>\<^verbatim>\<open>str.isspace\<close> on ASCII: tab, newline, vertical tab, form feed, carriage return,
  the four separators 0x1C to 0x1F, and space.\<close>

definition is_space :: "char \<Rightarrow> bool" where
  "is_space c = (c \<in> set [CHR 0x09, CHR 0x0A, CHR 0x0B, CHR 0x0C, CHR 0x0D,
                            CHR 0x1C, CHR 0x1D, CHR 0x1E, CHR 0x1F, CHR 0x20])"

definition py_strip :: "string \<Rightarrow> string" where
  "py_strip s = rev (dropWhile is_space (rev (dropWhile is_space s)))"

definition upper_char :: "char \<Rightarrow> char" where
  "upper_char c =
     (case map_of (zip ''abcdefghijklmnopqrstuvwxyz'' ''ABCDEFGHIJKLMNOPQRSTUVWXYZ'') c of
        Some u \<Rightarrow> u
      | None \<Rightarrow> c)"

definition lower_char :: "char \<Rightarrow> char" where
  "lower_char c =
     (case map_of (zip ''ABCDEFGHIJKLMNOPQRSTUVWXYZ'' ''abcdefghijklmnopqrstuvwxyz'') c of
        Some l \<Rightarrow> l
      | None \<Rightarrow> c)"

definition py_upper :: "string \<Rightarrow> string" where
  "py_upper s = map upper_char s"

definition py_lower :: "string \<Rightarrow> string" where
  "py_lower s = map lower_char s"

text \<open>\<^verbatim>\<open>s.split(sep)\<close> with a one-character separator: every occurrence splits, empty
  pieces are kept, and the empty string gives one empty piece.\<close>

fun py_split :: "char \<Rightarrow> string \<Rightarrow> string list" where
  "py_split sep [] = [Nil]"
| "py_split sep (c # cs) =
     (if c = sep then [] # py_split sep cs
      else (case py_split sep cs of
              [] \<Rightarrow> [c # Nil]
            | w # ws \<Rightarrow> (c # w) # ws))"

text \<open>\<^verbatim>\<open>sep.join(xs)\<close>.\<close>

fun py_join :: "string \<Rightarrow> string list \<Rightarrow> string" where
  "py_join sep [] = []"
| "py_join sep [x] = x"
| "py_join sep (x # y # ys) = x @ sep @ py_join sep (y # ys)"

text \<open>\<^verbatim>\<open>f"{s:>w}"\<close>: right-aligned in a field of width \<open>w\<close>.\<close>

definition py_rjust :: "nat \<Rightarrow> string \<Rightarrow> string" where
  "py_rjust w s = replicate (w - length s) CHR '' '' @ s"

subsection \<open>\<^verbatim>\<open>float(str)\<close>\<close>

text \<open>
  The grammar of the language reference: optional sign, then \<^verbatim>\<open>inf\<close>, \<^verbatim>\<open>infinity\<close> or
  \<^verbatim>\<open>nan\<close> in any case, or a decimal number with an optional exponent; digits may be
  separated by single underscores; surrounding whitespace is skipped. Anything else raises
  \<^verbatim>\<open>ValueError\<close>.
\<close>

definition is_digit :: "char \<Rightarrow> bool" where
  "is_digit c = (c \<in> set ''0123456789'')"

definition digit_val :: "char \<Rightarrow> nat" where
  "digit_val c =
     (case map_of (zip ''0123456789'' [0, 1, 2, 3, 4, 5, 6, 7, 8, 9]) c of
        Some d \<Rightarrow> d
      | None \<Rightarrow> 0)"

text \<open>The longest prefix \<^verbatim>\<open>digit (["_"] digit)*\<close>: its digits, and the rest of the string.\<close>

fun digitpart :: "string \<Rightarrow> string \<times> string" where
  "digitpart [] = ([], [])"
| "digitpart [c] = (if is_digit c then ([c], []) else ([], [c]))"
| "digitpart (c # u # cs) =
     (if \<not> is_digit c then ([], c # u # cs)
      else if u = CHR ''_'' \<and> (case cs of [] \<Rightarrow> False | d # _ \<Rightarrow> is_digit d)
      then (case digitpart cs of (ds, r) \<Rightarrow> (c # ds, r))
      else (case digitpart (u # cs) of (ds, r) \<Rightarrow> (c # ds, r)))"

definition digits_nat :: "string \<Rightarrow> nat" where
  "digits_nat ds = foldl (\<lambda>a d. 10 * a + digit_val d) 0 ds"

text \<open>The exponent part at the end of the string: absent (exponent 0), or
  \<^verbatim>\<open>("e" | "E") [sign] digitpart\<close>.\<close>

definition exponent :: "string \<Rightarrow> int option" where
  "exponent s =
     (case s of
        [] \<Rightarrow> Some 0
      | c # r \<Rightarrow>
          if c = CHR ''e'' \<or> c = CHR ''E'' then
            (let (neg, r') = (case r of
                                [] \<Rightarrow> (False, r)
                              | g # t \<Rightarrow> if g = CHR ''-'' then (True, t)
                                         else if g = CHR ''+'' then (False, t)
                                         else (False, r))
             in case digitpart r' of
                  (ds, rest) \<Rightarrow>
                    if ds = [] \<or> rest \<noteq> [] then None
                    else Some (if neg then - int (digits_nat ds) else int (digits_nat ds)))
          else None)"

text \<open>\<^verbatim>\<open>[digitpart] "." digitpart | digitpart ["."]\<close>, then the exponent.\<close>

definition floatnumber :: "string \<Rightarrow> real option" where
  "floatnumber s =
     (case digitpart s of
        (ip, r1) \<Rightarrow>
          (let (fp, r2) = (case r1 of
                             [] \<Rightarrow> ([], r1)
                           | c # r \<Rightarrow> if c = CHR ''.'' then digitpart r else ([], r1))
           in if ip = [] \<and> fp = [] then None
              else (case exponent r2 of
                      None \<Rightarrow> None
                    | Some e \<Rightarrow>
                        (let m = real (digits_nat (ip @ fp));
                             k = e - int (length fp)
                         in Some (if 0 \<le> k then m * 10 ^ nat k else m / 10 ^ nat (- k))))))"

text \<open>\<^verbatim>\<open>float\<close> skips whitespace with C's \<^verbatim>\<open>isspace\<close>: tab, newline, vertical tab, form
  feed, carriage return and space. The separators 0x1C to 0x1F, which \<^verbatim>\<open>str.strip\<close> removes,
  are not skipped on an ASCII string.\<close>

definition is_c_space :: "char \<Rightarrow> bool" where
  "is_c_space c = (c \<in> set [CHR 0x09, CHR 0x0A, CHR 0x0B, CHR 0x0C, CHR 0x0D, CHR 0x20])"

definition c_strip :: "string \<Rightarrow> string" where
  "c_strip s = rev (dropWhile is_c_space (rev (dropWhile is_c_space s)))"

definition py_float :: "string \<Rightarrow> py_error + real" where
  "py_float s =
     (let t = c_strip s;
          (neg, u) = (case t of
                        [] \<Rightarrow> (False, t)
                      | c # r \<Rightarrow> if c = CHR ''-'' then (True, r)
                                 else if c = CHR ''+'' then (False, r)
                                 else (False, t))
      in if py_lower u \<in> set [''inf'', ''infinity'', ''nan''] then Inl NonFiniteFloat
         else (case floatnumber u of
                 None \<Rightarrow> Inl ValueError
               | Some x \<Rightarrow> Inr (if neg then - x else x)))"

subsection \<open>The nominal piece values (lines 63 to 76)\<close>

text \<open>The dictionary \<^verbatim>\<open>default_nom\<close>: a key is absent (\<open>None\<close>), or present with the value
  \<^verbatim>\<open>None\<close> (\<open>Some None\<close>) or with a float (\<open>Some (Some x)\<close>).\<close>

type_synonym nominals = "string \<Rightarrow> real option option"

definition default_nom :: nominals where
  "default_nom =
     [''P'' \<mapsto> Some 1, ''N'' \<mapsto> Some 3, ''B'' \<mapsto> Some 3, ''R'' \<mapsto> Some 5, ''Q'' \<mapsto> Some 7,
      ''K'' \<mapsto> None]"

text \<open>One round of the loop over the comma-separated parts. The unpacking
  \<^verbatim>\<open>k, v = part.split(":")\<close> raises \<^verbatim>\<open>ValueError\<close> unless the split has two pieces.\<close>

definition parse_part :: "nominals \<Rightarrow> string \<Rightarrow> py_error + nominals" where
  "parse_part d part =
     (if CHR '':'' \<in> set part then
        (case py_split CHR '':'' part of
           [k, v] \<Rightarrow>
             (case py_float v of
                Inl e \<Rightarrow> Inl e
              | Inr x \<Rightarrow> Inr (d(py_upper (py_strip k) \<mapsto> Some x)))
         | _ \<Rightarrow> Inl ValueError)
      else Inr d)"

fun parse_parts :: "nominals \<Rightarrow> string list \<Rightarrow> py_error + nominals" where
  "parse_parts d [] = Inr d"
| "parse_parts d (part # parts) =
     (case parse_part d part of
        Inl e \<Rightarrow> Inl e
      | Inr d' \<Rightarrow> parse_parts d' parts)"

definition parse_nominals :: "string \<Rightarrow> py_error + nominals" where
  "parse_nominals piece_nominals = parse_parts default_nom (py_split CHR '','' piece_nominals)"


datatype piece_type = PAWN | KNIGHT | BISHOP | ROOK | QUEEN | KING

text \<open>\<^verbatim>\<open>d.get(k)\<close>: \<^verbatim>\<open>None\<close> for an absent key.\<close>

definition dict_get :: "nominals \<Rightarrow> string \<Rightarrow> real option" where
  "dict_get d k = (case d k of None \<Rightarrow> None | Some v \<Rightarrow> v)"

fun nominal_map :: "nominals \<Rightarrow> piece_type \<Rightarrow> real option" where
  "nominal_map d PAWN = dict_get d ''P''"
| "nominal_map d KNIGHT = dict_get d ''N''"
| "nominal_map d BISHOP = dict_get d ''B''"
| "nominal_map d ROOK = dict_get d ''R''"
| "nominal_map d QUEEN = dict_get d ''Q''"
| "nominal_map d KING = dict_get d ''K''"

subsection \<open>Pieces, squares and boards of python-chess\<close>

record piece =
  piece_type :: piece_type
  color :: bool

text \<open>\<^verbatim>\<open>Piece.symbol()\<close>: upper case for white (\<^verbatim>\<open>chess.WHITE = True\<close>).\<close>

fun piece_symbol :: "piece_type \<Rightarrow> string" where
  "piece_symbol PAWN = ''p''"
| "piece_symbol KNIGHT = ''n''"
| "piece_symbol BISHOP = ''b''"
| "piece_symbol ROOK = ''r''"
| "piece_symbol QUEEN = ''q''"
| "piece_symbol KING = ''k''"

definition symbol :: "piece \<Rightarrow> string" where
  "symbol p = (if color p then py_upper (piece_symbol (piece_type p)) else piece_symbol (piece_type p))"

text \<open>\<^verbatim>\<open>chess.SQUARES = list(range(64))\<close>, \<^verbatim>\<open>square_file(sq) = sq & 7\<close>,
  \<^verbatim>\<open>square_rank(sq) = sq >> 3\<close>, \<^verbatim>\<open>square(file, rank) = rank * 8 + file\<close> and
  \<^verbatim>\<open>square_name(sq) = FILE_NAMES[square_file(sq)] + RANK_NAMES[square_rank(sq)]\<close>.\<close>

definition SQUARES :: "nat list" where
  "SQUARES = [0..<64]"

definition square_file :: "nat \<Rightarrow> nat" where
  "square_file sq = sq mod 8"

definition square_rank :: "nat \<Rightarrow> nat" where
  "square_rank sq = sq div 8"

definition square :: "nat \<Rightarrow> nat \<Rightarrow> nat" where
  "square file_index rank_index = rank_index * 8 + file_index"

definition FILE_NAMES :: string where
  "FILE_NAMES = ''abcdefgh''"

definition RANK_NAMES :: string where
  "RANK_NAMES = ''12345678''"

definition square_name :: "nat \<Rightarrow> string" where
  "square_name sq = [FILE_NAMES ! square_file sq, RANK_NAMES ! square_rank sq]"

text \<open>A \<^verbatim>\<open>chess.Board\<close> object: the piece on each square (the library keeps it in
  bitboards), the bitboard of promoted pieces as a set of squares, and the rest of the
  position. A move is recorded by its from and to squares.\<close>

record board =
  piece_map :: "nat \<Rightarrow> piece option"
  promoted :: "nat set"
  turn :: bool
  castling_rights :: "nat set"
  ep_square :: "nat option"
  halfmove_clock :: nat
  fullmove_number :: nat
  chess960 :: bool
  move_stack :: "(nat \<times> nat) list"

definition piece_at :: "board \<Rightarrow> nat \<Rightarrow> piece option" where
  "piece_at b sq = piece_map b sq"

text \<open>Board objects live in a store, addressed by their position in it.
  \<^verbatim>\<open>board.copy(stack=False)\<close> allocates a new object with the same position and an empty move
  stack; \<^verbatim>\<open>b.remove_piece_at(sq)\<close> updates the object \<open>b\<close> in place: it clears the square
  (also in the promoted bitboard) and clears the move stack.\<close>

type_synonym store = "board list"

definition board_copy :: "store \<Rightarrow> nat \<Rightarrow> store \<times> nat" where
  "board_copy h a = (h @ [(h ! a)\<lparr>move_stack := []\<rparr>], length h)"

definition remove_piece_at :: "store \<Rightarrow> nat \<Rightarrow> nat \<Rightarrow> store" where
  "remove_piece_at h a sq =
     h[a := (h ! a)\<lparr>piece_map := (piece_map (h ! a))(sq := None),
                    promoted := promoted (h ! a) - {sq},
                    move_stack := []\<rparr>]"

subsection \<open>The raw contributions (lines 56 to 59)\<close>

text \<open>\<open>sqs\<close> is the network's second output viewed as 64 rows of 12 columns, \<open>feats\<close> is
  the feature vector without its last entry viewed the same way. \<^verbatim>\<open>argmax\<close> takes the first
  index of the largest of the 12 entries; \<^verbatim>\<open>gather\<close> reads that column of the same row.\<close>

fun argmax_upto :: "(nat \<Rightarrow> real) \<Rightarrow> nat \<Rightarrow> nat" where
  "argmax_upto row 0 = 0"
| "argmax_upto row (Suc n) =
     (let j = argmax_upto row n in if row j < row (Suc n) then Suc n else j)"

definition piece_idx :: "(nat \<Rightarrow> nat \<Rightarrow> real) \<Rightarrow> nat \<Rightarrow> nat" where
  "piece_idx feats i = argmax_upto (feats i) 11"

definition contrib :: "(nat \<Rightarrow> nat \<Rightarrow> real) \<Rightarrow> (nat \<Rightarrow> nat \<Rightarrow> real) \<Rightarrow> nat \<Rightarrow> real" where
  "contrib sqs feats i = sqs i (piece_idx feats i)"

subsection \<open>The contribution list (lines 77 to 88)\<close>

text \<open>\<^verbatim>\<open>a / b\<close> on floats raises \<^verbatim>\<open>ZeroDivisionError\<close> for a zero divisor.\<close>

definition py_truediv :: "real \<Rightarrow> real \<Rightarrow> py_error + real" where
  "py_truediv a b = (if b = 0 then Inl ZeroDivisionError else Inr (a / b))"

text \<open>The truth value of \<^verbatim>\<open>nominal\<close>: \<^verbatim>\<open>None\<close> and \<^verbatim>\<open>0.0\<close> are false.\<close>

definition truthy :: "real option \<Rightarrow> bool" where
  "truthy nominal = (case nominal of None \<Rightarrow> False | Some n \<Rightarrow> n \<noteq> 0)"

text \<open>\<^verbatim>\<open>if args.normalize and nominal: val /= nominal\<close>\<close>

definition normalize_step :: "bool \<Rightarrow> real option \<Rightarrow> real \<Rightarrow> py_error + real" where
  "normalize_step normalize_flag nominal val =
     (if normalize_flag \<and> truthy nominal then
        (case nominal of Some n \<Rightarrow> py_truediv val n | None \<Rightarrow> Inr val)
      else Inr val)"

text \<open>\<^verbatim>\<open>if args.scale_piece and nominal: val *= nominal\<close>\<close>

definition scale_step :: "bool \<Rightarrow> real option \<Rightarrow> real \<Rightarrow> real" where
  "scale_step scale_piece_flag nominal val =
     (if scale_piece_flag \<and> truthy nominal then
        (case nominal of Some n \<Rightarrow> val * n | None \<Rightarrow> val)
      else val)"

text \<open>The body of the loop for one square: the value appended to \<^verbatim>\<open>contrib_list\<close>.\<close>

definition square_value ::
  "bool \<Rightarrow> bool \<Rightarrow> (piece_type \<Rightarrow> real option) \<Rightarrow> board \<Rightarrow> (nat \<Rightarrow> real) \<Rightarrow> nat \<Rightarrow> py_error + real"
where
  "square_value normalize_flag scale_piece_flag nmap b ctr sq_idx =
     (case piece_at b sq_idx of
        Some p \<Rightarrow>
          (let val = ctr sq_idx;
               nominal = nmap (piece_type p)
           in case normalize_step normalize_flag nominal val of
                Inl e \<Rightarrow> Inl e
              | Inr val' \<Rightarrow> Inr (scale_step scale_piece_flag nominal val'))
      | None \<Rightarrow> Inr 0)"

text \<open>A loop \<^verbatim>\<open>for x in xs: ys.append(f(x))\<close> where \<open>f\<close> may raise.\<close>

fun collect :: "('a \<Rightarrow> py_error + 'b) \<Rightarrow> 'a list \<Rightarrow> py_error + 'b list" where
  "collect f [] = Inr []"
| "collect f (x # xs) =
     (case f x of
        Inl e \<Rightarrow> Inl e
      | Inr v \<Rightarrow> (case collect f xs of Inl e \<Rightarrow> Inl e | Inr vs \<Rightarrow> Inr (v # vs)))"

definition contrib_list ::
  "bool \<Rightarrow> bool \<Rightarrow> (piece_type \<Rightarrow> real option) \<Rightarrow> board \<Rightarrow> (nat \<Rightarrow> real) \<Rightarrow> py_error + real list"
where
  "contrib_list normalize_flag scale_piece_flag nmap b ctr =
     collect (square_value normalize_flag scale_piece_flag nmap b ctr) SQUARES"

text \<open>Lines 61 to 88: the contribution list that \<^verbatim>\<open>main\<close> builds from the options, the
  board and the raw contributions; and its entry for one square, \<^verbatim>\<open>contrib_list[sq]\<close>.\<close>

definition attribution_rows ::
  "bool \<Rightarrow> bool \<Rightarrow> string \<Rightarrow> board \<Rightarrow> (nat \<Rightarrow> real) \<Rightarrow> py_error + real list"
where
  "attribution_rows normalize_flag scale_piece_flag piece_nominals_arg b ctr =
     (case parse_nominals piece_nominals_arg of
        Inl e \<Rightarrow> Inl e
      | Inr d \<Rightarrow> contrib_list normalize_flag scale_piece_flag (nominal_map d) b ctr)"

subsection \<open>\<^verbatim>\<open>format_matrix\<close> (lines 12 to 21)\<close>

text \<open>\<^verbatim>\<open>xs[i]\<close> for an index that is not negative.\<close>

definition py_index :: "'a list \<Rightarrow> nat \<Rightarrow> py_error + 'a" where
  "py_index xs i = (if i < length xs then Inr (xs ! i) else Inl IndexError)"


text \<open>The inner loop over the files of row \<open>r\<close>; \<open>fmt\<close> is the format \<^verbatim>\<open>6.3f\<close>.\<close>

definition row_vals :: "(real \<Rightarrow> string) \<Rightarrow> real list \<Rightarrow> nat \<Rightarrow> py_error + string list" where
  "row_vals fmt ctr r =
     collect (\<lambda>f. case py_index ctr (r * 8 + f) of
                     Inl e \<Rightarrow> Inl e
                   | Inr x \<Rightarrow> Inr (fmt x)) [0..<8]"

definition format_matrix :: "(real \<Rightarrow> string) \<Rightarrow> real list \<Rightarrow> py_error + string" where
  "format_matrix fmt ctr =
     (case collect (\<lambda>r. case row_vals fmt ctr r of
                           Inl e \<Rightarrow> Inl e
                         | Inr vals \<Rightarrow> Inr (py_join '' '' vals)) [7, 6, 5, 4, 3, 2, 1, 0] of
        Inl e \<Rightarrow> Inl e
      | Inr rows \<Rightarrow> Inr (py_join [CHR 0x0A] rows))"

subsection \<open>The counterfactual deltas (lines 112 to 129)\<close>

text \<open>A row of \<^verbatim>\<open>deltas\<close>: the tuple (delta, symbol, square name, square index).\<close>

type_synonym delta_row = "real \<times> string \<times> string \<times> nat"

text \<open>
  The loop over the squares, on the store; the board analysed is the object at address
  \<open>a\<close>. \<open>evaluate\<close> stands for \<^verbatim>\<open>board_to_features\<close> followed by the network's first output.
  The state of the loop is the store, the list \<^verbatim>\<open>deltas\<close> and, for the record, the boards
  handed to the evaluator so far.
\<close>

fun deltas_loop ::
  "(board \<Rightarrow> real) \<Rightarrow> real \<Rightarrow> nat \<Rightarrow> nat list \<Rightarrow> store \<times> delta_row list \<times> board list
     \<Rightarrow> store \<times> delta_row list \<times> board list"
where
  "deltas_loop evaluate global_eval a [] st = st"
| "deltas_loop evaluate global_eval a (sq_idx # rest) (h, deltas, calls) =
     (case piece_at (h ! a) sq_idx of
        None \<Rightarrow> deltas_loop evaluate global_eval a rest (h, deltas, calls)
      | Some p \<Rightarrow>
          if piece_type p = KING then deltas_loop evaluate global_eval a rest (h, deltas, calls)
          else
            (case board_copy h a of
               (h1, b2) \<Rightarrow>
                 (let h2 = remove_piece_at h1 b2 sq_idx;
                      g2 = evaluate (h2 ! b2);
                      delta = global_eval - g2
                  in deltas_loop evaluate global_eval a rest
                       (h2, deltas @ [(delta, symbol p, square_name sq_idx, sq_idx)],
                        calls @ [h2 ! b2]))))"

text \<open>\<^verbatim>\<open>xs.sort(key=lambda x: x[0], reverse=True)\<close>: stable, largest key first.\<close>

definition sort_desc :: "(real \<times> 'a) list \<Rightarrow> (real \<times> 'a) list" where
  "sort_desc xs = sort_key (\<lambda>x. - fst x) xs"

text \<open>Lines 112 to 125 for the board \<open>b\<close> built by \<^verbatim>\<open>chess.Board(args.fen)\<close>, the only
  object in the store when the loop starts.\<close>

definition compute_deltas ::
  "bool \<Rightarrow> bool \<Rightarrow> (board \<Rightarrow> real) \<Rightarrow> real \<Rightarrow> board \<Rightarrow> store \<times> delta_row list \<times> board list"
where
  "compute_deltas with_delta grid_mode_delta evaluate global_eval b =
     (if with_delta \<or> grid_mode_delta then
        (case deltas_loop evaluate global_eval 0 SQUARES ([b], [], []) of
           (h, deltas, calls) \<Rightarrow> (h, sort_desc deltas, calls))
      else ([b], [], []))"

text \<open>\<^verbatim>\<open>f"{sqname:>2} {sym:>2}: {val:+.3f}"\<close>; \<open>fmt\<close> is the format \<^verbatim>\<open>+.3f\<close>.\<close>

definition ranked_line :: "(real \<Rightarrow> string) \<Rightarrow> real \<Rightarrow> string \<Rightarrow> string \<Rightarrow> string" where
  "ranked_line fmt val sy sqname = py_rjust 2 sqname @ '' '' @ py_rjust 2 sy @ '': '' @ fmt val"

text \<open>Lines 126 to 129: what is printed for the deltas.\<close>

definition delta_output :: "(real \<Rightarrow> string) \<Rightarrow> bool \<Rightarrow> delta_row list \<Rightarrow> string list" where
  "delta_output fmt with_delta deltas =
     (if with_delta then
        (CHR 0x0A # ''Counterfactual piece deltas (removing piece):'')
          # map (\<lambda>(val, sy, sqname, _). ranked_line fmt val sy sqname) deltas
      else [])"

subsection \<open>The ranked contributors (lines 98 to 110)\<close>

fun scored_loop :: "board \<Rightarrow> real list \<Rightarrow> nat list \<Rightarrow> py_error + (real \<times> string \<times> string) list" where
  "scored_loop b cl [] = Inr []"
| "scored_loop b cl (sq # rest) =
     (case piece_at b sq of
        None \<Rightarrow> scored_loop b cl rest
      | Some p \<Rightarrow>
          (case py_index cl sq of
             Inl e \<Rightarrow> Inl e
           | Inr v \<Rightarrow>
               (case scored_loop b cl rest of
                  Inl e \<Rightarrow> Inl e
                | Inr r \<Rightarrow> Inr ((v, symbol p, square_name sq) # r))))"

text \<open>\<^verbatim>\<open>scored[:5]\<close> and \<^verbatim>\<open>scored[-5:]\<close>.\<close>

definition top_bottom :: "(real \<Rightarrow> string) \<Rightarrow> (real \<times> string \<times> string) list \<Rightarrow> string list" where
  "top_bottom fmt scored =
     (CHR 0x0A # ''Top 5 contributors:'')
       # map (\<lambda>(val, sy, sqname). ranked_line fmt val sy sqname) (take 5 scored)
     @ (CHR 0x0A # ''Bottom 5 contributors:'')
       # map (\<lambda>(val, sy, sqname). ranked_line fmt val sy sqname) (drop (length scored - 5) scored)"

subsection \<open>The fancy grid (lines 131 to 155)\<close>

text \<open>\<^verbatim>\<open>f"{s:^w}"\<close>: centred, the odd space on the right.\<close>

definition py_center :: "nat \<Rightarrow> string \<Rightarrow> string" where
  "py_center w s =
     (let n = w - length s
      in replicate (n div 2) CHR '' '' @ s @ replicate (n - n div 2) CHR '' '')"

definition cell_w :: nat where
  "cell_w = 11"

definition sep :: string where
  "sep = ''+'' @ py_join ''+'' (replicate 8 (replicate cell_w CHR ''-'')) @ ''+''"

text \<open>\<^verbatim>\<open>delta_map\<close>: the dictionary comprehension keeps the last row of a square.\<close>

definition delta_map :: "delta_row list \<Rightarrow> nat \<Rightarrow> real option" where
  "delta_map deltas = map_of (rev (map (\<lambda>(val, _, _, sq_idx). (sq_idx, val)) deltas))"

text \<open>One cell: the symbol and the value; \<open>fmt\<close> is the format \<^verbatim>\<open>^11.2f\<close>.\<close>

definition fancy_cell ::
  "(real \<Rightarrow> string) \<Rightarrow> bool \<Rightarrow> board \<Rightarrow> real list \<Rightarrow> delta_row list \<Rightarrow> nat \<Rightarrow> py_error + string \<times> string"
where
  "fancy_cell fmt grid_mode_delta b cl deltas idx =
     (case piece_at b idx of
        Some p \<Rightarrow>
          (case (if grid_mode_delta
                 then Inr (case delta_map deltas idx of Some v \<Rightarrow> v | None \<Rightarrow> 0)
                 else py_index cl idx) of
             Inl e \<Rightarrow> Inl e
           | Inr val \<Rightarrow> Inr (py_center cell_w (symbol p), fmt val))
      | None \<Rightarrow> Inr (replicate cell_w CHR '' '', replicate cell_w CHR '' ''))"

text \<open>The rows of the grid: the lines printed, and the error that stopped the loop, if any.\<close>

fun fancy_rows ::
  "(real \<Rightarrow> string) \<Rightarrow> bool \<Rightarrow> board \<Rightarrow> real list \<Rightarrow> delta_row list \<Rightarrow> nat list
     \<Rightarrow> string list \<times> py_error option"
where
  "fancy_rows fmt grid_mode_delta b cl deltas [] = ([], None)"
| "fancy_rows fmt grid_mode_delta b cl deltas (r # rs) =
     (case collect (\<lambda>f. fancy_cell fmt grid_mode_delta b cl deltas (r * 8 + f)) [0..<8] of
        Inl e \<Rightarrow> ([], Some e)
      | Inr cells \<Rightarrow>
          (case fancy_rows fmt grid_mode_delta b cl deltas rs of
             (out, err) \<Rightarrow>
               ([''|'' @ py_join ''|'' (map fst cells) @ ''|'',
                 ''|'' @ py_join ''|'' (map snd cells) @ ''|'',
                 sep] @ out, err)))"

definition fancy_grid ::
  "(real \<Rightarrow> string) \<Rightarrow> bool \<Rightarrow> board \<Rightarrow> real list \<Rightarrow> delta_row list \<Rightarrow> string list \<times> py_error option"
where
  "fancy_grid fmt grid_mode_delta b cl deltas =
     (case fancy_rows fmt grid_mode_delta b cl deltas [7, 6, 5, 4, 3, 2, 1, 0] of
        (out, err) \<Rightarrow>
          ((CHR 0x0A # ''Fancy grid (piece on first line, value on second):'') # sep # out, err))"

subsection \<open>\<^verbatim>\<open>main\<close> from line 53\<close>

text \<open>The options that the report depends on, and the four float formats
  \<^verbatim>\<open>.3f\<close>, \<^verbatim>\<open>+.3f\<close>, \<^verbatim>\<open>6.3f\<close> and \<^verbatim>\<open>^11.2f\<close>.\<close>

record args =
  fen :: string
  with_delta :: bool
  normalize_arg :: bool
  scale_piece_arg :: bool
  piece_nominals :: string
  fancy :: bool
  grid_mode :: string

record formats =
  fmt_3f :: "real \<Rightarrow> string"
  fmt_p3f :: "real \<Rightarrow> string"
  fmt_63f :: "real \<Rightarrow> string"
  fmt_c2f :: "real \<Rightarrow> string"

text \<open>
  The lines printed and the exception that ended the run, if any. \<open>b\<close> is the board that
  \<^verbatim>\<open>chess.Board(args.fen)\<close> built, \<open>evaluate\<close> the global output of the network on a board,
  \<open>sqs\<close> and \<open>feats\<close> the per-square output and the features of \<open>b\<close>.
\<close>

definition main ::
  "formats \<Rightarrow> args \<Rightarrow> board \<Rightarrow> (board \<Rightarrow> real) \<Rightarrow> (nat \<Rightarrow> nat \<Rightarrow> real) \<Rightarrow> (nat \<Rightarrow> nat \<Rightarrow> real)
     \<Rightarrow> string list \<times> py_error option"
where
  "main fm a b evaluate sqs feats =
     (case attribution_rows (normalize_arg a) (scale_piece_arg a) (piece_nominals a) b
             (contrib sqs feats) of
        Inl e \<Rightarrow> ([], Some e)
      | Inr cl \<Rightarrow>
          (let global_eval = evaluate b;
               total_contrib = sum_list cl;
               out1 =
                 [''FEN: '' @ fen a,
                  ''Global eval: '' @ fmt_3f fm global_eval @ '' pawns'',
                  ''Sum of per-square contributions: '' @ fmt_3f fm total_contrib
                    @ '' pawns (diff '' @ fmt_p3f fm (global_eval - total_contrib) @ '')'',
                  ''Per-square contributions (A8 on the first row):'']
           in case format_matrix (fmt_63f fm) cl of
                Inl e \<Rightarrow> (out1, Some e)
              | Inr m \<Rightarrow>
                  (case scored_loop b cl SQUARES of
                     Inl e \<Rightarrow> (out1 @ [m], Some e)
                   | Inr sc \<Rightarrow>
                       (let scored = sort_desc sc;
                            out2 = out1 @ [m] @ top_bottom (fmt_p3f fm) scored
                        in case compute_deltas (with_delta a) (grid_mode a = ''delta'')
                                  evaluate global_eval b of
                             (h, deltas, calls) \<Rightarrow>
                               (let out3 = out2 @ delta_output (fmt_p3f fm) (with_delta a) deltas
                                in if fancy a then
                                     (case fancy_grid (fmt_c2f fm) (grid_mode a = ''delta'')
                                             b cl deltas of
                                        (out, err) \<Rightarrow> (out3 @ out, err))
                                   else (out3, None))))))"

subsection \<open>The standard starting position\<close>

text \<open>The board of the default \<^verbatim>\<open>--fen\<close>,
  \<^verbatim>\<open>rnbqkbnr/pppppppp/8/8/8/8/PPPPPPPP/RNBQKBNR w KQkq - 0 1\<close>: square 0 is a1.\<close>

definition back_rank :: "piece_type list" where
  "back_rank = [ROOK, KNIGHT, BISHOP, QUEEN, KING, BISHOP, KNIGHT, ROOK]"

definition starting_pieces :: "piece option list" where
  "starting_pieces =
     map (\<lambda>t. Some \<lparr>piece_type = t, color = True\<rparr>) back_rank
     @ replicate 8 (Some \<lparr>piece_type = PAWN, color = True\<rparr>)
     @ replicate 32 None
     @ replicate 8 (Some \<lparr>piece_type = PAWN, color = False\<rparr>)
     @ map (\<lambda>t. Some \<lparr>piece_type = t, color = False\<rparr>) back_rank"

definition starting_board :: board where
  "starting_board =
     \<lparr>piece_map = (\<lambda>sq. if sq < 64 then starting_pieces ! sq else None),
      promoted = {},
      turn = True,
      castling_rights = {0, 7, 56, 63},
      ep_square = None,
      halfmove_clock = 0,
      fullmove_number = 1,
      chess960 = False,
      move_stack = []\<rparr>"

subsection \<open>The specification's view of the same operations\<close>

text \<open>A well-formed override token: one separator, and a value that is a float; its
  symbol is stripped and upper-cased.\<close>

definition wellformed_token :: "string \<Rightarrow> (string \<times> real) option" where
  "wellformed_token part =
     (if CHR '':'' \<in> set part then
        (case py_split CHR '':'' part of
           [k, v] \<Rightarrow> (case py_float v of Inr x \<Rightarrow> Some (py_upper (py_strip k), x) | Inl _ \<Rightarrow> None)
         | _ \<Rightarrow> None)
      else None)"

text \<open>The table \<open>d\<close> overwritten by the well-formed tokens among \<open>parts\<close>: for each symbol
  the last token with that symbol wins, and a symbol with no token keeps its entry.\<close>

definition overridden :: "nominals \<Rightarrow> string list \<Rightarrow> nominals" where
  "overridden d parts key =
     (case filter (\<lambda>(k, x). k = key) (List.map_filter wellformed_token parts) of
        [] \<Rightarrow> d key
      | t # ts \<Rightarrow> Some (Some (snd (last (t # ts)))))"

definition spec_effective_table :: "string \<Rightarrow> nominals" where
  "spec_effective_table s = overridden default_nom (py_split CHR '','' s)"

text \<open>The symbols of the tokens of an override string that have exactly one separator.\<close>

definition token_symbols :: "string \<Rightarrow> string list" where
  "token_symbols s =
     concat (map (\<lambda>part. case py_split CHR '':'' part of
                            [k, v] \<Rightarrow> [py_upper (py_strip k)]
                          | _ \<Rightarrow> []) (py_split CHR '','' s))"

text \<open>The position \<open>b\<close> with the piece on \<open>sq\<close> absent (a promoted piece leaves the
  promoted bitboard with it) and no move history.\<close>

definition without_piece :: "board \<Rightarrow> nat \<Rightarrow> board" where
  "without_piece b sq =
     b\<lparr>piece_map := (piece_map b)(sq := None), promoted := promoted b - {sq}, move_stack := []\<rparr>"

text \<open>A square occupied by a piece that is not a king.\<close>

definition removable :: "board \<Rightarrow> nat \<Rightarrow> bool" where
  "removable b sq = (case piece_at b sq of None \<Rightarrow> False | Some p \<Rightarrow> piece_type p \<noteq> KING)"

text \<open>The counterfactual row of a square: the global score of the original position minus
  the score of the position without the piece.\<close>

definition spec_delta_row :: "(board \<Rightarrow> real) \<Rightarrow> real \<Rightarrow> board \<Rightarrow> nat \<Rightarrow> delta_row" where
  "spec_delta_row evaluate global_eval b sq =
     (global_eval - evaluate (without_piece b sq),
      (case piece_at b sq of None \<Rightarrow> [] | Some p \<Rightarrow> symbol p), square_name sq, sq)"

text \<open>The square of a row of \<^verbatim>\<open>deltas\<close>.\<close>

definition row_square :: "delta_row \<Rightarrow> nat" where
  "row_square r = (case r of (_, _, _, sq_idx) \<Rightarrow> sq_idx)"

subsection \<open>Example inputs\<close>

text \<open>Raw contributions that are 1 on every square, and an evaluator that counts the
  occupied squares.\<close>

definition unit_contrib :: "nat \<Rightarrow> real" where
  "unit_contrib i = 1"

definition count_evaluate :: "board \<Rightarrow> real" where
  "count_evaluate b = real (length (filter (\<lambda>sq. piece_at b sq \<noteq> None) SQUARES))"

text \<open>A position with three pieces: white king e1, white queen d1, black king e8
  (\<^verbatim>\<open>4k3/8/8/8/8/8/8/3QK3 w - - 0 1\<close>).\<close>

definition kqk_board :: board where
  "kqk_board =
     \<lparr>piece_map = (\<lambda>sq. if sq = 3 then Some \<lparr>piece_type = QUEEN, color = True\<rparr>
                         else if sq = 4 then Some \<lparr>piece_type = KING, color = True\<rparr>
                         else if sq = 60 then Some \<lparr>piece_type = KING, color = False\<rparr>
                         else None),
      promoted = {},
      turn = True,
      castling_rights = {},
      ep_square = None,
      halfmove_clock = 0,
      fullmove_number = 1,
      chess960 = False,
      move_stack = []\<rparr>"

text \<open>A stand-in for the format \<^verbatim>\<open>+.3f\<close> that renders 1 and 0 as that format does.\<close>

definition example_fmt :: "real \<Rightarrow> string" where
  "example_fmt x = (if x = 1 then ''+1.000'' else if x = 0 then ''+0.000'' else ''?'')"

section \<open>Properties\<close>

subsection \<open>Evaluation and auxiliary facts\<close>

lemmas float_defs =
  py_float_def floatnumber_def exponent_def digits_nat_def digit_val_def is_digit_def
  py_strip_def is_space_def c_strip_def is_c_space_def py_lower_def lower_char_def
  py_upper_def upper_char_def

lemma collect_map:
  "(\<And>x. x \<in> set xs \<Longrightarrow> f x = Inr (g x)) \<Longrightarrow> collect f xs = Inr (map g xs)"
  by (induction xs) simp_all

lemma normalize_step_value:
  "normalize_step nf nominal v =
     Inr (case nominal of None \<Rightarrow> v | Some n \<Rightarrow> if nf \<and> n \<noteq> 0 then v / n else v)"
  by (simp add: normalize_step_def truthy_def py_truediv_def split: option.split)

lemma scale_step_value:
  "scale_step sf nominal v =
     (case nominal of None \<Rightarrow> v | Some n \<Rightarrow> if sf \<and> n \<noteq> 0 then v * n else v)"
  by (simp add: scale_step_def truthy_def split: option.split)

lemma square_value_Inr:
  "square_value nf sf nmap b ctr sq =
     Inr (case piece_at b sq of
            None \<Rightarrow> 0
          | Some p \<Rightarrow> scale_step sf (nmap (piece_type p))
                        (case nmap (piece_type p) of
                           None \<Rightarrow> ctr sq
                         | Some n \<Rightarrow> if nf \<and> n \<noteq> 0 then ctr sq / n else ctr sq))"
  by (simp add: square_value_def normalize_step_value Let_def split: option.split)

lemma length_SQUARES: "length SQUARES = 64"
  by (simp add: SQUARES_def)

lemma nth_SQUARES: "i < 64 \<Longrightarrow> SQUARES ! i = i"
  by (simp add: SQUARES_def)

lemma contrib_list_map:
  "contrib_list nf sf nmap b ctr =
     Inr (map (\<lambda>sq. case square_value nf sf nmap b ctr sq of Inr v \<Rightarrow> v | Inl _ \<Rightarrow> 0) SQUARES)"
  unfolding contrib_list_def
  by (rule collect_map) (simp add: square_value_Inr)

lemma contrib_list_rows:
  assumes "contrib_list nf sf nmap b ctr = Inr rows"
  shows "length rows = 64"
    and "sq < 64 \<Longrightarrow> square_value nf sf nmap b ctr sq = Inr (rows ! sq)"
proof -
  let ?g = "\<lambda>sq. case square_value nf sf nmap b ctr sq of Inr v \<Rightarrow> v | Inl _ \<Rightarrow> 0"
  have rows: "rows = map ?g SQUARES"
    using assms contrib_list_map [of nf sf nmap b ctr] by simp
  show "length rows = 64" by (simp add: rows length_SQUARES)
  show "square_value nf sf nmap b ctr sq = Inr (rows ! sq)" if "sq < 64"
  proof -
    have "rows ! sq = ?g (SQUARES ! sq)"
      using that by (simp add: rows length_SQUARES)
    also have "SQUARES ! sq = sq" using that by (rule nth_SQUARES)
    finally show ?thesis by (simp add: square_value_Inr)
  qed
qed

lemma collect_cong:
  "(\<And>x. x \<in> set xs \<Longrightarrow> f x = g x) \<Longrightarrow> collect f xs = collect g xs"
  by (induction xs) (auto split: sum.splits)

lemma start_pieces:
  "piece_at starting_board 0 = Some \<lparr>piece_type = ROOK, color = True\<rparr>"
  "piece_at starting_board 3 = Some \<lparr>piece_type = QUEEN, color = True\<rparr>"
  "piece_at starting_board 4 = Some \<lparr>piece_type = KING, color = True\<rparr>"
  "piece_at starting_board 20 = None"
  "piece_at starting_board 56 = Some \<lparr>piece_type = ROOK, color = False\<rparr>"
  by (simp_all add: piece_at_def starting_board_def starting_pieces_def back_rank_def nth_append)

subsection \<open>Facts about the override string\<close>






lemma parse_part_no_colon: "CHR '':'' \<notin> set part \<Longrightarrow> parse_part d part = Inr d"
  by (simp add: parse_part_def)

lemma parse_parts_append:
  "parse_parts d (ps @ qs) =
     (case parse_parts d ps of Inl e \<Rightarrow> Inl e | Inr d' \<Rightarrow> parse_parts d' qs)"
  by (induction ps arbitrary: d) (auto split: sum.splits)

lemma wellformed_symbol:
  "wellformed_token part = Some (k, x) \<Longrightarrow> part \<in> set parts \<Longrightarrow>
   k \<in> set (concat (map (\<lambda>part. case py_split CHR '':'' part of
                                    [k, v] \<Rightarrow> [py_upper (py_strip k)]
                                  | _ \<Rightarrow> []) parts))"
  by (auto simp: wellformed_token_def split: if_splits list.splits sum.splits
           intro!: bexI [of _ part])

lemma overridden_unlisted:
  assumes "\<And>part x. part \<in> set parts \<Longrightarrow> wellformed_token part \<noteq> Some (key, x)"
  shows "overridden d parts key = d key"
proof -
  have "filter (\<lambda>(k, x). k = key) (List.map_filter wellformed_token parts) = []"
    using assms by (auto simp: filter_empty_conv List.map_filter_def)
  then show ?thesis by (simp add: overridden_def)
qed




lemma spec_table_unlisted:
  assumes "key \<notin> set (token_symbols s)"
  shows "spec_effective_table s key = default_nom key"
proof -
  have "wellformed_token part \<noteq> Some (key, x)" if "part \<in> set (py_split CHR '','' s)" for part x
    using wellformed_symbol [of part key x "py_split CHR '','' s"] that assms
    unfolding token_symbols_def by blast
  then show ?thesis unfolding spec_effective_table_def by (rule overridden_unlisted)
qed




lemma parse_Q0: "parse_nominals ''Q:0'' = Inr (default_nom(''Q'' \<mapsto> Some 0))"
  by (simp add: parse_nominals_def parse_part_def float_defs)



subsection \<open>Facts about the counterfactual loop\<close>

lemma copy_remove:
  "a < length h \<Longrightarrow>
   remove_piece_at (fst (board_copy h a)) (snd (board_copy h a)) sq
     = h @ [without_piece (h ! a) sq]"
  by (simp add: board_copy_def remove_piece_at_def without_piece_def nth_append)

text \<open>The loop never writes to the object it analyses: every round appends one object to
  the store and updates only that one.\<close>

lemma deltas_loop_closed:
  "a < length h \<Longrightarrow>
   deltas_loop ev ge a sqs (h, ds, cs) =
     (h @ map (without_piece (h ! a)) (filter (removable (h ! a)) sqs),
      ds @ map (spec_delta_row ev ge (h ! a)) (filter (removable (h ! a)) sqs),
      cs @ map (without_piece (h ! a)) (filter (removable (h ! a)) sqs))"
proof (induction sqs arbitrary: h ds cs)
  case Nil
  then show ?case by simp
next
  case (Cons sq sqs)
  show ?case
  proof (cases "piece_at (h ! a) sq")
    case None
    then have "\<not> removable (h ! a) sq" by (simp add: removable_def)
    then show ?thesis using None Cons by simp
  next
    case (Some p)
    show ?thesis
    proof (cases "piece_type p = KING")
      case True
      then have "\<not> removable (h ! a) sq" using Some by (simp add: removable_def)
      then show ?thesis using Some True Cons by simp
    next
      case False
      let ?h2 = "h @ [without_piece (h ! a) sq]"
      have a2: "a < length ?h2" using Cons.prems by simp
      have same: "?h2 ! a = h ! a" using Cons.prems by (simp add: nth_append)
      have rm: "remove_piece_at (fst (board_copy h a)) (length h) sq = ?h2"
        using copy_remove [OF Cons.prems, of sq] by (simp add: board_copy_def)
      have step: "deltas_loop ev ge a (sq # sqs) (h, ds, cs) =
                  deltas_loop ev ge a sqs
                    (?h2, ds @ [spec_delta_row ev ge (h ! a) sq],
                     cs @ [without_piece (h ! a) sq])"
        using Some False rm
        by (simp add: board_copy_def Let_def spec_delta_row_def)
      have r: "removable (h ! a) sq" using Some False by (simp add: removable_def)
      show ?thesis
        unfolding step Cons.IH [OF a2] same
        using r by simp
    qed
  qed
qed

lemma compute_deltas_closed:
  "compute_deltas wd gd ev ge b =
     (if wd \<or> gd then
        (b # map (without_piece b) (filter (removable b) SQUARES),
         sort_desc (map (spec_delta_row ev ge b) (filter (removable b) SQUARES)),
         map (without_piece b) (filter (removable b) SQUARES))
      else ([b], [], []))"
  using deltas_loop_closed [of 0 "[b]" ev ge SQUARES "[]" "[]"]
  by (simp add: compute_deltas_def)

lemma set_sort_desc: "set (sort_desc xs) = set xs"
  by (simp add: sort_desc_def)

lemma length_sort_desc: "length (sort_desc xs) = length xs"
  by (simp add: sort_desc_def)

lemma distinct_sort_desc: "distinct (sort_desc xs) = distinct xs"
  by (simp add: sort_desc_def)

lemma sorted_sort_desc: "sorted_wrt (\<lambda>x y. fst y \<le> fst x) (sort_desc xs)"
proof -
  have "sorted (map (\<lambda>x. - fst x) (sort_desc xs))"
    unfolding sort_desc_def by (rule sorted_sort_key)
  then show ?thesis
    by (simp add: sorted_wrt_map)
qed

lemma row_square_spec: "row_square (spec_delta_row ev ge b sq) = sq"
  by (simp add: row_square_def spec_delta_row_def)

lemma squares_of_sorted:
  assumes "distinct sqs"
  shows "distinct (map row_square (sort_desc (map (spec_delta_row ev ge b) sqs)))"
    and "set (map row_square (sort_desc (map (spec_delta_row ev ge b) sqs))) = set sqs"
proof -
  let ?f = "spec_delta_row ev ge b"
  have inj1: "inj_on ?f (set sqs)"
    by (rule inj_on_inverseI [where g = row_square]) (rule row_square_spec)
  have inj2: "inj_on row_square (?f ` set sqs)"
    by (rule inj_on_inverseI [where g = ?f]) (auto simp: row_square_spec)
  have "distinct (map ?f sqs)" using assms inj1 by (simp add: distinct_map)
  then show "distinct (map row_square (sort_desc (map ?f sqs)))"
    using inj2 by (simp add: distinct_map distinct_sort_desc set_sort_desc)
  have "row_square ` ?f ` set sqs = set sqs"
    by (simp add: image_image row_square_spec)
  then show "set (map row_square (sort_desc (map ?f sqs))) = set sqs"
    by (simp add: set_sort_desc)
qed

lemma distinct_SQUARES: "distinct SQUARES"
  by (simp add: SQUARES_def)

lemma set_SQUARES: "set SQUARES = {sq. sq < 64}"
  by (auto simp: SQUARES_def)

lemma removable_iff:
  "removable b sq \<longleftrightarrow> (\<exists>p. piece_at b sq = Some p \<and> piece_type p \<noteq> KING)"
  by (simp add: removable_def split: option.split)

lemma start_removable: "length (filter (removable starting_board) SQUARES) = 30"
  by code_simp

lemma kqk_removable: "filter (removable kqk_board) SQUARES = [3]"
  by code_simp

lemma row_vals_closed:
  "length rows = 64 \<Longrightarrow> r < 8 \<Longrightarrow>
   row_vals fmt rows r = Inr (map (\<lambda>f. fmt (rows ! square f r)) [0..<8])"
  unfolding row_vals_def
  by (rule collect_map) (simp add: py_index_def square_def)

lemma format_matrix_closed:
  assumes "length rows = 64"
  shows "format_matrix fmt rows =
     Inr (py_join [CHR 0x0A]
            (map (\<lambda>rank. py_join '' '' (map (\<lambda>file. fmt (rows ! square file rank)) [0..<8]))
               [7, 6, 5, 4, 3, 2, 1, 0]))"
proof -
  have "collect (\<lambda>r. case row_vals fmt rows r of
                        Inl e \<Rightarrow> Inl e
                      | Inr vals \<Rightarrow> Inr (py_join '' '' vals)) [7, 6, 5, 4, 3, 2, 1, 0]
        = Inr (map (\<lambda>rank. py_join '' '' (map (\<lambda>file. fmt (rows ! square file rank)) [0..<8]))
                 [7, 6, 5, 4, 3, 2, 1, 0])"
    by (rule collect_map) (auto simp: row_vals_closed [OF assms])
  then show ?thesis by (simp add: format_matrix_def)
qed

lemma square_name_square:
  "file < 8 \<Longrightarrow> rank < 8 \<Longrightarrow>
   square_name (square file rank) = [FILE_NAMES ! file, RANK_NAMES ! rank]"
  by (simp add: square_name_def square_def square_file_def square_rank_def)

lemma square_names:
  "square_name 0 = ''a1''" "square_name 56 = ''a8''" "square_name 3 = ''d1''"
  by (simp_all add: square_name_def square_file_def square_rank_def FILE_NAMES_def RANK_NAMES_def)

lemma kqk_counts:
  "count_evaluate kqk_board = 3" "count_evaluate (without_piece kqk_board 3) = 2"
  by code_simp+

lemma kqk_queen: "piece_at kqk_board 3 = Some \<lparr>piece_type = QUEEN, color = True\<rparr>"
  by (simp add: piece_at_def kqk_board_def)

lemma kqk_deltas:
  "compute_deltas True False count_evaluate (count_evaluate kqk_board) kqk_board =
     ([kqk_board, without_piece kqk_board 3], [(1, ''Q'', ''d1'', 3)],
      [without_piece kqk_board 3])"
  by (simp add: compute_deltas_closed kqk_removable sort_desc_def spec_delta_row_def kqk_counts
        kqk_queen symbol_def py_upper_def upper_char_def square_names)

lemma length_symbol: "length (symbol p) = 1"
  by (cases "piece_type p") (simp_all add: symbol_def py_upper_def)

lemma length_square_name: "length (square_name sq) = 2"
  by (simp add: square_name_def)

lemma ranked_line_row:
  "ranked_line fmt d (symbol p) (square_name sq) = square_name sq @ ''  '' @ symbol p @ '': '' @ fmt d"
proof -
  have 1: "py_rjust 2 (square_name sq) = square_name sq"
    by (simp add: py_rjust_def length_square_name)
  have "2 - length (symbol p) = Suc 0" by (simp add: length_symbol)
  then have 2: "py_rjust 2 (symbol p) = '' '' @ symbol p"
    by (simp add: py_rjust_def)
  show ?thesis unfolding ranked_line_def 1 2 by simp
qed


subsection \<open>Order of the rows and the plain grid\<close>

text \<open>The rows \<^verbatim>\<open>main\<close> builds and what \<^verbatim>\<open>format_matrix\<close> prints from them: the cell in printed
  row \<open>k\<close> and column \<open>file\<close> holds the row of \<open>square file (7 - k)\<close>.\<close>

lemma format_matrix_prints_rank8_first:
  assumes "contrib_list nf sf nmap b (contrib sqs feats) = Inr rows"
  shows "length rows = 64
     \<and> (\<forall>i<64. \<forall>sqs'. sqs' i = sqs i \<longrightarrow>
           square_value nf sf nmap b (contrib sqs' feats) i = Inr (rows ! i))
     \<and> format_matrix fmt rows =
         Inr (py_join [CHR 0x0A]
                (map (\<lambda>rank. py_join '' '' (map (\<lambda>file. fmt (rows ! square file rank)) [0..<8]))
                   [7, 6, 5, 4, 3, 2, 1, 0]))
     \<and> (\<forall>file<8. \<forall>rank<8.
           square_name (square file rank) = [FILE_NAMES ! file, RANK_NAMES ! rank])
     \<and> square_name 0 = ''a1'' \<and> square_name 56 = ''a8''"
proof -
  have len: "length rows = 64" using contrib_list_rows(1) [OF assms] .
  have al: "square_value nf sf nmap b (contrib sqs' feats) i = Inr (rows ! i)"
    if "i < 64" "sqs' i = sqs i" for i sqs'
  proof -
    have "contrib sqs' feats i = contrib sqs feats i" using that(2) by (simp add: contrib_def)
    then have "square_value nf sf nmap b (contrib sqs' feats) i
               = square_value nf sf nmap b (contrib sqs feats) i"
      by (simp add: square_value_def split: option.split)
    then show ?thesis using contrib_list_rows(2) [OF assms that(1)] by simp
  qed
  show ?thesis
    using len al format_matrix_closed [OF len, of fmt] square_name_square square_names(1,2)
    by blast
qed

text \<open>
  Claim C1. The claim gives the rows in the order rank 8 down to rank 1, row 0 being a8,
  and so does the comment of \<^verbatim>\<open>format_matrix\<close> (\<^verbatim>\<open>contrib is length 64 in Field order (A8 index 0)\<close>).
  The code does otherwise: \<^verbatim>\<open>main\<close> fills the list over \<^verbatim>\<open>chess.SQUARES\<close>, whose first square
  is a1, while a8 is square 56. In the starting position row 0 belongs to the white rook on
  a1, and the ranked list labels it a1.
\<close>

theorem row_zero_is_a1_not_a8:
  "SQUARES ! 0 = 0 \<and> square_name (SQUARES ! 0) = ''a1'' \<and> square_name (SQUARES ! 0) \<noteq> ''a8''
   \<and> square_name (SQUARES ! 56) = ''a8''
   \<and> piece_at starting_board (SQUARES ! 0) = Some \<lparr>piece_type = ROOK, color = True\<rparr>
   \<and> scored_loop starting_board (map real [0..<64]) [SQUARES ! 0] = Inr [(0, ''R'', ''a1'')]"
  by (simp add: nth_SQUARES square_names start_pieces py_index_def symbol_def py_upper_def
        upper_char_def)

subsection \<open>King squares\<close>




subsection \<open>Malformed override tokens\<close>

text \<open>
  Claim C3, as stated, fails: a token that has a separator but no float after it, or more
  than one separator, raises \<^verbatim>\<open>ValueError\<close>.
\<close>

theorem malformed_token_raises_counterexample:
  "parse_nominals ''P:x'' = Inl ValueError \<and> parse_nominals ''P:1:2'' = Inl ValueError"
  by (simp add: parse_nominals_def parse_part_def float_defs)

text \<open>
  Claim C3, amended. Every token without a separator is silently ignored: it raises
  nothing and leaves the table as it was, so that the override string parses as it does
  without that token.
\<close>

theorem token_without_separator_ignored:
  "CHR '':'' \<notin> set part \<Longrightarrow>
     parse_part d part = Inr d
     \<and> parse_parts d (ps @ part # qs) = parse_parts d (ps @ qs)"
  by (simp add: parse_parts_append parse_part_no_colon split: sum.splits)

theorem token_without_separator_ignored_witness:
  "CHR '':'' \<notin> set ''P2''
   \<and> parse_part default_nom ''P2'' = Inr default_nom
   \<and> parse_parts default_nom ([''N:5''] @ ''P2'' # [''Q:9''])
       = parse_parts default_nom ([''N:5''] @ [''Q:9''])"
proof -
  have h: "CHR '':'' \<notin> set ''P2''" by simp
  from token_without_separator_ignored [OF h, of default_nom "[''N:5'']" "[''Q:9'']"] h
  show ?thesis by blast
qed

subsection \<open>The attribution rows\<close>

text \<open>
  Claim C4. For every position, every setting of the flags and every nominal table, the
  extraction returns (it raises nothing) exactly 64 rows; row \<open>sq\<close> is the value computed
  for square \<open>sq\<close>, and the row of an unoccupied square is exactly 0.
\<close>

theorem contrib_list_64_rows:
  "\<exists>rows. contrib_list nf sf nmap b ctr = Inr rows \<and> length rows = 64
     \<and> (\<forall>sq<64. square_value nf sf nmap b ctr sq = Inr (rows ! sq))
     \<and> (\<forall>sq<64. piece_at b sq = None \<longrightarrow> rows ! sq = 0)"
proof -
  obtain rows where 1: "contrib_list nf sf nmap b ctr = Inr rows"
    using contrib_list_map by blast
  have 2: "length rows = 64" using contrib_list_rows(1) [OF 1] .
  have 3: "square_value nf sf nmap b ctr sq = Inr (rows ! sq)" if "sq < 64" for sq
    using contrib_list_rows(2) [OF 1 that] .
  have 4: "rows ! sq = 0" if "sq < 64" "piece_at b sq = None" for sq
    using 3 [OF that(1)] that(2) by (simp add: square_value_def)
  from 1 2 3 4 show ?thesis by blast
qed

theorem contrib_list_64_rows_witness:
  "\<exists>rows. contrib_list True True (nominal_map default_nom) starting_board unit_contrib = Inr rows
     \<and> length rows = 64 \<and> (20::nat) < 64 \<and> piece_at starting_board 20 = None \<and> rows ! 20 = 0"
proof -
  from contrib_list_64_rows [of True True "nominal_map default_nom" starting_board unit_contrib]
  obtain rows where
    "contrib_list True True (nominal_map default_nom) starting_board unit_contrib = Inr rows"
    "length rows = 64"
    "\<forall>sq<64. piece_at starting_board sq = None \<longrightarrow> rows ! sq = 0"
    by blast
  with start_pieces(4) show ?thesis by auto
qed

text \<open>
  Claim C5. For every occupied square whose piece kind has a nominal value in the table,
  with both flags set the row equals the raw contribution (over the reals: the division
  and the multiplication cancel, and a nominal of 0 applies neither).
\<close>

theorem both_flags_report_raw:
  "contrib_list True True nmap b ctr = Inr rows \<Longrightarrow> sq < 64 \<Longrightarrow> piece_at b sq = Some p \<Longrightarrow>
   nmap (piece_type p) = Some n \<Longrightarrow> rows ! sq = ctr sq"
  using contrib_list_rows(2) [of True True nmap b ctr rows sq]
  by (cases "n = 0") (simp_all add: square_value_Inr scale_step_value)

theorem both_flags_report_raw_witness:
  "\<exists>rows. contrib_list True True (nominal_map default_nom) starting_board unit_contrib = Inr rows
     \<and> (0::nat) < 64
     \<and> piece_at starting_board 0 = Some \<lparr>piece_type = ROOK, color = True\<rparr>
     \<and> nominal_map default_nom (piece_type \<lparr>piece_type = ROOK, color = True\<rparr>) = Some 5
     \<and> rows ! 0 = unit_contrib 0"
proof -
  obtain rows where
    r: "contrib_list True True (nominal_map default_nom) starting_board unit_contrib = Inr rows"
    using contrib_list_map by blast
  have n: "nominal_map default_nom (piece_type \<lparr>piece_type = ROOK, color = True\<rparr>) = Some 5"
    by (simp add: dict_get_def default_nom_def)
  have "rows ! 0 = unit_contrib 0"
    using both_flags_report_raw [OF r _ start_pieces(1) n] by simp
  with r n start_pieces(1) show ?thesis by simp
qed

subsection \<open>The effective nominal table\<close>




subsection \<open>The counterfactual rows\<close>

text \<open>
  Claim C7. When the deltas are requested (\<^verbatim>\<open>--with-delta\<close> or the delta grid mode), there
  is exactly one row per square occupied by a piece that is not a king, and no other row;
  for the starting position there are 30 rows.
\<close>

theorem counterfactual_rows_non_king:
  "wd \<or> gd \<Longrightarrow>
     distinct (map row_square (fst (snd (compute_deltas wd gd ev ge b))))
     \<and> set (map row_square (fst (snd (compute_deltas wd gd ev ge b))))
         = {sq. sq < 64 \<and> (\<exists>p. piece_at b sq = Some p \<and> piece_type p \<noteq> KING)}
     \<and> length (fst (snd (compute_deltas wd gd ev ge starting_board))) = 30"
proof -
  assume req: "wd \<or> gd"
  let ?sqs = "filter (removable b) SQUARES"
  let ?rows = "fst (snd (compute_deltas wd gd ev ge b))"
  have rows: "?rows = sort_desc (map (spec_delta_row ev ge b) ?sqs)"
    using req by (simp add: compute_deltas_closed)
  have dsq: "distinct ?sqs" using distinct_SQUARES by simp
  have d: "distinct (map row_square ?rows)"
    unfolding rows using dsq by (rule squares_of_sorted(1))
  have "set (map row_square ?rows) = set ?sqs"
    unfolding rows using dsq by (rule squares_of_sorted(2))
  also have "\<dots> = {sq. sq < 64 \<and> (\<exists>p. piece_at b sq = Some p \<and> piece_type p \<noteq> KING)}"
    by (auto simp: set_SQUARES removable_iff)
  finally have s: "set (map row_square ?rows)
      = {sq. sq < 64 \<and> (\<exists>p. piece_at b sq = Some p \<and> piece_type p \<noteq> KING)}" .
  have l: "length (fst (snd (compute_deltas wd gd ev ge starting_board))) = 30"
    using req by (simp add: compute_deltas_closed length_sort_desc start_removable)
  from d s l show ?thesis by blast
qed

theorem counterfactual_rows_non_king_witness:
  "(True \<or> False)
   \<and> distinct (map row_square (fst (snd (compute_deltas True False count_evaluate 32
                                            starting_board))))
   \<and> length (fst (snd (compute_deltas True False count_evaluate 32 starting_board))) = 30"
proof -
  have h: "True \<or> False" by simp
  from counterfactual_rows_non_king [OF h, of count_evaluate 32 starting_board]
  show ?thesis by simp
qed

text \<open>
  Claim C8. Every row of the deltas holds the global score of the original position minus
  the global score of the position without the piece of its square, with the symbol of that
  piece and the name of the square; the rows are sorted by delta, largest first; when the
  deltas are computed there is one row for every square with a piece that is not a king;
  and with \<^verbatim>\<open>--with-delta\<close> the output is the heading followed, for every row in that order,
  by the line made of the square name, the symbol and the formatted delta.
\<close>

theorem deltas_are_score_differences_sorted_all_printed:
  assumes "compute_deltas wd gd ev (ev b) b = (h, rows, calls)"
  shows "(\<forall>r \<in> set rows. \<exists>p.
            piece_at b (row_square r) = Some p \<and> piece_type p \<noteq> KING \<and> row_square r < 64
            \<and> r = (ev b - ev (without_piece b (row_square r)), symbol p,
                   square_name (row_square r), row_square r))
     \<and> sorted_wrt (\<lambda>x y. fst y \<le> fst x) rows
     \<and> (wd \<or> gd \<longrightarrow>
           distinct (map row_square rows)
           \<and> set (map row_square rows)
               = {sq. sq < 64 \<and> (\<exists>p. piece_at b sq = Some p \<and> piece_type p \<noteq> KING)})
     \<and> (wd \<longrightarrow>
           delta_output fmt wd rows =
             (CHR 0x0A # ''Counterfactual piece deltas (removing piece):'')
               # map (\<lambda>r. square_name (row_square r) @ ''  '' @ fst (snd r) @ '': '' @ fmt (fst r))
                   rows)"
proof -
  let ?sqs = "filter (removable b) SQUARES"
  have rows: "rows = (if wd \<or> gd then sort_desc (map (spec_delta_row ev (ev b) b) ?sqs) else [])"
    using assms by (auto simp: compute_deltas_closed split: if_splits)
  have row: "\<exists>p. piece_at b (row_square r) = Some p \<and> piece_type p \<noteq> KING \<and> row_square r < 64
            \<and> r = (ev b - ev (without_piece b (row_square r)), symbol p,
                   square_name (row_square r), row_square r)"
    if "r \<in> set rows" for r
  proof -
    from that obtain sq where sq: "sq \<in> set SQUARES" "removable b sq"
      and r: "r = spec_delta_row ev (ev b) b sq"
      unfolding rows by (auto simp: set_sort_desc split: if_splits)
    from sq(2) obtain p where p: "piece_at b sq = Some p" "piece_type p \<noteq> KING"
      by (auto simp: removable_iff)
    have "row_square r = sq" unfolding r by (rule row_square_spec)
    moreover have "sq < 64" using sq(1) by (simp add: set_SQUARES)
    ultimately show ?thesis using p r by (auto simp: spec_delta_row_def)
  qed
  have 2: "sorted_wrt (\<lambda>x y. fst y \<le> fst x) rows"
    unfolding rows by (simp add: sorted_sort_desc)
  have 3: "distinct (map row_square rows)
           \<and> set (map row_square rows)
               = {sq. sq < 64 \<and> (\<exists>p. piece_at b sq = Some p \<and> piece_type p \<noteq> KING)}"
    if req: "wd \<or> gd"
  proof -
    have r: "rows = sort_desc (map (spec_delta_row ev (ev b) b) ?sqs)" using rows req by simp
    have dsq: "distinct ?sqs" using distinct_SQUARES by simp
    have "set ?sqs = {sq. sq < 64 \<and> (\<exists>p. piece_at b sq = Some p \<and> piece_type p \<noteq> KING)}"
      by (auto simp: set_SQUARES removable_iff)
    then show ?thesis
      unfolding r using squares_of_sorted [OF dsq, of ev "ev b" b] by simp
  qed
  have line: "(case r of (val, sy, sqname, _) \<Rightarrow> ranked_line fmt val sy sqname)
              = square_name (row_square r) @ ''  '' @ fst (snd r) @ '': '' @ fmt (fst r)"
    if "r \<in> set rows" for r
  proof -
    from row [OF that] obtain p where
      "r = (ev b - ev (without_piece b (row_square r)), symbol p,
            square_name (row_square r), row_square r)"
      by blast
    then obtain d sq where r: "r = (d, symbol p, square_name sq, sq)"
      by blast
    show ?thesis unfolding r by (simp add: ranked_line_row row_square_def)
  qed
  have 4: "delta_output fmt wd rows =
             (CHR 0x0A # ''Counterfactual piece deltas (removing piece):'')
               # map (\<lambda>r. square_name (row_square r) @ ''  '' @ fst (snd r) @ '': '' @ fmt (fst r))
                   rows"
    if "wd"
  proof -
    have "map (\<lambda>r. case r of (val, sy, sqname, _) \<Rightarrow> ranked_line fmt val sy sqname) rows
          = map (\<lambda>r. square_name (row_square r) @ ''  '' @ fst (snd r) @ '': '' @ fmt (fst r)) rows"
      by (rule map_cong [OF refl]) (rule line)
    then show ?thesis using that by (simp add: delta_output_def)
  qed
  from row 2 3 4 show ?thesis by blast
qed

theorem deltas_are_score_differences_sorted_all_printed_witness:
  "compute_deltas True False count_evaluate (count_evaluate kqk_board) kqk_board =
     ([kqk_board, without_piece kqk_board 3], [(1, ''Q'', ''d1'', 3)],
      [without_piece kqk_board 3])
   \<and> (1::real) = count_evaluate kqk_board - count_evaluate (without_piece kqk_board 3)
   \<and> piece_at kqk_board 3 = Some \<lparr>piece_type = QUEEN, color = True\<rparr>
   \<and> delta_output example_fmt True [(1, ''Q'', ''d1'', 3)] =
       [CHR 0x0A # ''Counterfactual piece deltas (removing piece):'', ''d1  Q: +1.000'']"
proof -
  note t = deltas_are_score_differences_sorted_all_printed [OF kqk_deltas, of example_fmt]
  from t have "delta_output example_fmt True [(1, ''Q'', ''d1'', 3)] =
       (CHR 0x0A # ''Counterfactual piece deltas (removing piece):'')
         # map (\<lambda>r. square_name (row_square r) @ ''  '' @ fst (snd r) @ '': '' @ example_fmt (fst r))
             [(1, ''Q'', ''d1'', 3)]"
    by blast
  then have o: "delta_output example_fmt True [(1, ''Q'', ''d1'', 3)] =
       [CHR 0x0A # ''Counterfactual piece deltas (removing piece):'', ''d1  Q: +1.000'']"
    by (simp add: row_square_def square_names example_fmt_def)
  from t have "\<forall>r \<in> set [(1::real, ''Q'', ''d1'', 3::nat)]. \<exists>p.
            piece_at kqk_board (row_square r) = Some p \<and> piece_type p \<noteq> KING \<and> row_square r < 64
            \<and> r = (count_evaluate kqk_board - count_evaluate (without_piece kqk_board (row_square r)),
                   symbol p, square_name (row_square r), row_square r)"
    by blast
  then have d: "(1::real) = count_evaluate kqk_board - count_evaluate (without_piece kqk_board 3)"
    by (auto simp: row_square_def)
  from kqk_deltas d kqk_queen o show ?thesis by simp
qed

text \<open>
  Claim C9. The analysis leaves the original board object as it was: the object at
  address 0 of the final store is the original board, every board handed to the evaluator
  is an object of its own, allocated after it, and equals the original except that the
  piece of one square with a piece that is not a king is absent and the move stack is empty.
\<close>

theorem original_board_never_mutated:
  assumes "compute_deltas wd gd ev ge b = (h, deltas, calls)"
  shows "h ! 0 = b \<and> h = b # calls \<and> length calls = length deltas
     \<and> (\<forall>c \<in> set calls. \<exists>sq<64. \<exists>p.
           piece_at b sq = Some p \<and> piece_type p \<noteq> KING
           \<and> piece_map c = (piece_map b)(sq := None)
           \<and> promoted c = promoted b - {sq}
           \<and> move_stack c = []
           \<and> turn c = turn b \<and> castling_rights c = castling_rights b
           \<and> ep_square c = ep_square b \<and> halfmove_clock c = halfmove_clock b
           \<and> fullmove_number c = fullmove_number b \<and> chess960 c = chess960 b)"
proof (cases "wd \<or> gd")
  case False
  with assms show ?thesis by (auto simp: compute_deltas_closed)
next
  case True
  let ?sqs = "filter (removable b) SQUARES"
  from assms True have h: "h = b # calls" and c: "calls = map (without_piece b) ?sqs"
    and d: "deltas = sort_desc (map (spec_delta_row ev ge b) ?sqs)"
    by (auto simp: compute_deltas_closed)
  have len: "length calls = length deltas" by (simp add: c d length_sort_desc)
  have each: "\<exists>sq<64. \<exists>p.
           piece_at b sq = Some p \<and> piece_type p \<noteq> KING
           \<and> piece_map x = (piece_map b)(sq := None)
           \<and> promoted x = promoted b - {sq}
           \<and> move_stack x = []
           \<and> turn x = turn b \<and> castling_rights x = castling_rights b
           \<and> ep_square x = ep_square b \<and> halfmove_clock x = halfmove_clock b
           \<and> fullmove_number x = fullmove_number b \<and> chess960 x = chess960 b"
    if "x \<in> set calls" for x
  proof -
    from that obtain sq where sq: "sq \<in> set SQUARES" "removable b sq" "x = without_piece b sq"
      unfolding c by auto
    from sq(1) have "sq < 64" by (simp add: set_SQUARES)
    moreover from sq(2) obtain p where "piece_at b sq = Some p" "piece_type p \<noteq> KING"
      by (auto simp: removable_iff)
    ultimately show ?thesis using sq(3) by (auto simp: without_piece_def)
  qed
  from h len each show ?thesis by auto
qed

theorem original_board_never_mutated_witness:
  "compute_deltas True False count_evaluate (count_evaluate kqk_board) kqk_board =
     ([kqk_board, without_piece kqk_board 3], [(1, ''Q'', ''d1'', 3)],
      [without_piece kqk_board 3])
   \<and> [kqk_board, without_piece kqk_board 3] ! 0 = kqk_board
   \<and> move_stack (without_piece kqk_board 3) = []
   \<and> piece_map (without_piece kqk_board 3) = (piece_map kqk_board)(3 := None)"
  using original_board_never_mutated [OF kqk_deltas] kqk_deltas
  by (simp add: without_piece_def)

subsection \<open>A nominal value of zero\<close>

text \<open>
  Claim C10. When the override string gives a piece kind the nominal value 0, the rows are
  those of the table in which that kind has no nominal value: the squares of that kind
  report the raw contribution for every position and every setting of the flags, and the
  extraction returns its rows, so no division by zero is raised.
\<close>

theorem zero_nominal_like_undefined:
  assumes "parse_nominals s = Inr d" and "nominal_map d k = Some 0"
  shows "contrib_list nf sf (nominal_map d) b ctr
           = contrib_list nf sf ((nominal_map d)(k := None)) b ctr
     \<and> (\<exists>rows. contrib_list nf sf (nominal_map d) b ctr = Inr rows
           \<and> (\<forall>sq<64. \<forall>p. piece_at b sq = Some p \<and> piece_type p = k \<longrightarrow> rows ! sq = ctr sq))"
proof -
  have z: "square_value nf sf (nominal_map d) b ctr sq
           = square_value nf sf ((nominal_map d)(k := None)) b ctr sq" for sq
    using assms(2) by (simp add: square_value_Inr scale_step_value split: option.split)
  have 1: "contrib_list nf sf (nominal_map d) b ctr
           = contrib_list nf sf ((nominal_map d)(k := None)) b ctr"
    unfolding contrib_list_def by (rule collect_cong) (rule z)
  obtain rows where r: "contrib_list nf sf (nominal_map d) b ctr = Inr rows"
    using contrib_list_map by blast
  have "rows ! sq = ctr sq" if "sq < 64" "piece_at b sq = Some p" "piece_type p = k" for sq p
    using contrib_list_rows(2) [OF r that(1)] that(2,3) assms(2)
    by (simp add: square_value_Inr scale_step_value)
  with 1 r show ?thesis by blast
qed

theorem zero_nominal_like_undefined_witness:
  "parse_nominals ''Q:0'' = Inr (default_nom(''Q'' \<mapsto> Some 0))
   \<and> nominal_map (default_nom(''Q'' \<mapsto> Some 0)) QUEEN = Some 0
   \<and> (\<exists>rows. contrib_list True True (nominal_map (default_nom(''Q'' \<mapsto> Some 0)))
                 starting_board unit_contrib = Inr rows
         \<and> (3::nat) < 64
         \<and> piece_at starting_board 3 = Some \<lparr>piece_type = QUEEN, color = True\<rparr>
         \<and> rows ! 3 = unit_contrib 3)"
proof -
  have n: "nominal_map (default_nom(''Q'' \<mapsto> Some 0)) QUEEN = Some 0"
    by (simp add: dict_get_def)
  from zero_nominal_like_undefined [OF parse_Q0 n, of True True starting_board unit_contrib]
  obtain rows where
    r: "contrib_list True True (nominal_map (default_nom(''Q'' \<mapsto> Some 0))) starting_board
          unit_contrib = Inr rows"
    and a: "\<forall>sq<64. \<forall>p. piece_at starting_board sq = Some p \<and> piece_type p = QUEEN
              \<longrightarrow> rows ! sq = unit_contrib sq"
    by blast
  from a start_pieces(2) have "rows ! 3 = unit_contrib 3" by simp
  with r parse_Q0 n start_pieces(2) show ?thesis by simp
qed


end
